theory Spec2Isabelle
  imports Main "HOL-Library.Word"
begin

unbundle bit_operations_syntax

section \<open>The WASM bump allocator of \<open>src/wasm/stdlib.c\<close>\<close>

text \<open>
  The allocator is compiled for wasm32: \<open>size_t\<close>, \<open>uint32_t\<close> and every pointer are
  32-bit values, so addresses and sizes are \<open>32 word\<close> and all address arithmetic
  wraps. The linear memory is a store from addresses to bytes; it is total over the
  32-bit address space (an access beyond the current memory size, which traps on the
  host, is not distinguished). The three static variables \<open>heap_end\<close>, \<open>heap_start\<close>
  and \<open>next\<close> are fields of the state record, next to the memory and to the host's
  side of the linear memory (its size in pages and the ceiling up to which the host
  grants growth).
\<close>

type_synonym addr = "32 word"
type_synonym memory = "addr \<Rightarrow> 8 word"

record heap =
  heap_end :: addr
  heap_start :: addr
  next_region :: addr
  mem :: memory
  mem_pages :: "32 word"
  page_limit :: nat

definition NULL :: addr where
  "NULL = 0"

definition PAGESIZE :: "32 word" where
  "PAGESIZE = 0x10000"

definition MAX_HEAP_SIZE :: int where
  "MAX_HEAP_SIZE = 4 * 1024 * 1024"

text \<open>\<open>sizeof(Region)\<close>: one \<open>size_t\<close> field followed by a zero-length array.\<close>

definition REGION_HEADER :: "32 word" where
  "REGION_HEADER = 4"

subsection \<open>Memory accesses\<close>

text \<open>A \<open>size_t\<close> is stored in four bytes, least significant first (WASM is little-endian).\<close>

definition store32 :: "memory \<Rightarrow> addr \<Rightarrow> 32 word \<Rightarrow> memory" where
  "store32 m a v = m(a := ucast v,
                     a + 1 := ucast (drop_bit 8 v),
                     a + 2 := ucast (drop_bit 16 v),
                     a + 3 := ucast (drop_bit 24 v))"

definition load32 :: "memory \<Rightarrow> addr \<Rightarrow> 32 word" where
  "load32 m a = ucast (m a) OR push_bit 8 (ucast (m (a + 1)))
                OR push_bit 16 (ucast (m (a + 2))) OR push_bit 24 (ucast (m (a + 3)))"

text \<open>
  \<open>memset\<close> and \<open>memcpy\<close> of the C library, in closed form: the byte at offset
  \<open>a - p\<close> below \<open>n\<close> is written, every other byte is kept. \<open>memcpy\<close> reads the
  source bytes from the memory before the call.
\<close>

definition memset :: "memory \<Rightarrow> addr \<Rightarrow> 8 word \<Rightarrow> 32 word \<Rightarrow> memory" where
  "memset m p c n = (\<lambda>a. if a - p < n then c else m a)"

definition memcpy :: "memory \<Rightarrow> addr \<Rightarrow> addr \<Rightarrow> 32 word \<Rightarrow> memory" where
  "memcpy m dst src n = (\<lambda>a. if a - dst < n then m (src + (a - dst)) else m a)"

subsection \<open>The host's linear memory\<close>

text \<open>
  Modelled from the spec: the builtins \<open>__builtin_wasm_memory_size\<close> and
  \<open>__builtin_wasm_memory_grow\<close> are provided by the host. The size is the current
  number of pages. Growth by \<open>delta\<close> pages is granted when the new size stays within
  the host's ceiling and within the 65536 pages a 32-bit memory can have; it then
  returns the previous size. A refused growth changes nothing and returns \<open>-1\<close>.
\<close>

definition wasm_memory_size :: "heap \<Rightarrow> 32 word" where
  "wasm_memory_size s = mem_pages s"

definition wasm_memory_grow :: "32 word \<Rightarrow> heap \<Rightarrow> 32 word \<times> heap" where
  "wasm_memory_grow delta s =
     (if unat (mem_pages s) + unat delta \<le> min (page_limit s) 65536
      then (mem_pages s, s\<lparr>mem_pages := mem_pages s + delta\<rparr>)
      else (- 1, s))"

subsection \<open>The allocator\<close>

definition region_for_ptr :: "addr \<Rightarrow> addr" where
  "region_for_ptr ptr = ptr - REGION_HEADER"

definition region_after :: "addr \<Rightarrow> 32 word \<Rightarrow> addr" where
  "region_after self len =
     (let address = (self + REGION_HEADER) + len;
          aligned = (address + 3) AND NOT 3
      in aligned)"

definition get_heap_end :: "heap \<Rightarrow> addr" where
  "get_heap_end s = wasm_memory_size s * PAGESIZE"

definition grow_heap :: "32 word \<Rightarrow> heap \<Rightarrow> bool \<times> heap" where
  "grow_heap sz s =
     (let new_page_count = ((sz - 1) div PAGESIZE) + 1;
          (r, s') = wasm_memory_grow new_page_count s
      in (uint r \<noteq> MAX_HEAP_SIZE, s'))"

definition reset_heap :: "addr \<Rightarrow> heap \<Rightarrow> heap" where
  "reset_heap new_heap_start s =
     s\<lparr>heap_start := new_heap_start,
       next_region := new_heap_start,
       heap_end := get_heap_end s\<rparr>"

text \<open>The tail of \<open>malloc\<close>: write the header at \<open>next\<close>, move \<open>next\<close>, return the payload.\<close>

definition place_region :: "32 word \<Rightarrow> addr \<Rightarrow> heap \<Rightarrow> addr \<times> heap" where
  "place_region sz region_end s =
     (let result = next_region s + REGION_HEADER
      in (result, s\<lparr>mem := store32 (mem s) (next_region s) sz,
                    next_region := region_end\<rparr>))"

definition malloc :: "32 word \<Rightarrow> heap \<Rightarrow> addr \<times> heap" where
  "malloc sz s =
     (let region_end = region_after (next_region s) sz
      in if region_end > heap_end s then
           if sint (region_end - heap_start s) > MAX_HEAP_SIZE then (NULL, s)
           else (let (grown, s1) = grow_heap sz s
                 in if \<not> grown then (NULL, s1)
                    else place_region sz region_end (s1\<lparr>heap_end := get_heap_end s1\<rparr>))
         else place_region sz region_end s)"

definition free :: "addr \<Rightarrow> heap \<Rightarrow> heap" where
  "free ptr s =
     (if ptr = NULL then s
      else (let region = region_for_ptr ptr;
                region_end = region_after region (load32 (mem s) region)
            in if region_end = next_region s then s\<lparr>next_region := region\<rparr> else s))"

definition calloc :: "32 word \<Rightarrow> 32 word \<Rightarrow> heap \<Rightarrow> addr \<times> heap" where
  "calloc count sz s =
     (let (result, s1) = malloc (count * sz) s
      in (result, s1\<lparr>mem := memset (mem s1) result 0 (count * sz)\<rparr>))"

definition realloc :: "addr \<Rightarrow> 32 word \<Rightarrow> heap \<Rightarrow> addr \<times> heap" where
  "realloc ptr new_size s =
     (if ptr = NULL then malloc new_size s
      else (let region = region_for_ptr ptr;
                region_end = region_after region (load32 (mem s) region)
            in if region_end = next_region s
               then malloc new_size (s\<lparr>next_region := region\<rparr>)
               else (let (result, s1) = malloc new_size s
                     in (result, s1\<lparr>mem := memcpy (mem s1) result (region + REGION_HEADER)
                                                 (load32 (mem s1) region)\<rparr>))))"

subsection \<open>Sequences of calls\<close>

text \<open>A caller allocating one block per size in turn, collecting the returned pointers.\<close>

fun malloc_all :: "32 word list \<Rightarrow> heap \<Rightarrow> addr list \<times> heap" where
  "malloc_all [] s = ([], s)"
| "malloc_all (n # ns) s =
     (let (p, s1) = malloc n s;
          (ps, s2) = malloc_all ns s1
      in (p # ps, s2))"

text \<open>A caller freeing the given pointers in turn.\<close>

fun free_all :: "addr list \<Rightarrow> heap \<Rightarrow> heap" where
  "free_all [] s = s"
| "free_all (p # ps) s = free_all ps (free p s)"

subsection \<open>Notions used by the properties\<close>

text \<open>The invariant on the three static variables.\<close>

definition heap_inv :: "heap \<Rightarrow> bool" where
  "heap_inv s = (heap_start s \<le> next_region s \<and> next_region s \<le> heap_end s)"

text \<open>
  A block with header at \<open>p\<close> and payload size \<open>n\<close> lies inside the 32-bit address
  space: computing its end does not wrap around.
\<close>

definition block_fits :: "addr \<Rightarrow> 32 word \<Rightarrow> bool" where
  "block_fits p n = (unat p + unat n + 7 < 2 ^ 32)"

fun blocks_fit :: "addr \<Rightarrow> 32 word list \<Rightarrow> bool" where
  "blocks_fit p [] = True"
| "blocks_fit p (n # ns) = (block_fits p n \<and> blocks_fit (region_after p n) ns)"

text \<open>The state in which \<open>malloc\<close> goes on after it has asked the host for more memory.\<close>

definition grown :: "32 word \<Rightarrow> heap \<Rightarrow> heap" where
  "grown sz s = (let s1 = snd (grow_heap sz s) in s1\<lparr>heap_end := get_heap_end s1\<rparr>)"

subsection \<open>Example states\<close>

text \<open>A 16-page memory whose host grants growth up to 256 pages; the heap starts at 0x1000.\<close>

definition roomy_heap :: heap where
  "roomy_heap = \<lparr>heap_end = 0x100000, heap_start = 0x1000, next_region = 0x1000,
                  mem = (\<lambda>_. 0xAA), mem_pages = 16, page_limit = 256\<rparr>"

text \<open>A one-page memory whose host grants no growth at all.\<close>

definition small_heap :: heap where
  "small_heap = \<lparr>heap_end = 0x10000, heap_start = 0x1000, next_region = 0x1000,
                  mem = (\<lambda>_. 0xAA), mem_pages = 1, page_limit = 1\<rparr>"

text \<open>An 80-page memory (5 MiB) at the host's ceiling; the heap starts at 0x10000.\<close>

definition wide_heap :: heap where
  "wide_heap = \<lparr>heap_end = 0x500000, heap_start = 0x10000, next_region = 0x10000,
                 mem = (\<lambda>_. 0xAA), mem_pages = 0x50, page_limit = 0x50\<rparr>"

text \<open>A one-page memory before the first \<open>reset_heap\<close>, on a host that grants growth.\<close>

definition fresh_heap :: heap where
  "fresh_heap = \<lparr>heap_end = 0, heap_start = 0, next_region = 0,
                  mem = (\<lambda>_. 0xAA), mem_pages = 1, page_limit = 256\<rparr>"

text \<open>The roomy heap after \<open>malloc(16)\<close>, and after a further \<open>malloc(32)\<close>.\<close>

definition one_block :: heap where
  "one_block = snd (malloc 16 roomy_heap)"

definition two_blocks :: heap where
  "two_blocks = snd (malloc 32 one_block)"

text \<open>The sizes of three requests made in a row.\<close>

definition three_sizes :: "32 word list" where
  "three_sizes = [16, 32, 8]"

text \<open>
  The one-page heap after \<open>reset_heap(0x8000)\<close> and \<open>malloc(0x7FFC)\<close>, which fills the
  page exactly, and after a further \<open>malloc(0x10000)\<close>, which ends beyond the grown memory.
\<close>

definition page_filled :: heap where
  "page_filled = snd (malloc 0x7FFC (reset_heap 0x8000 fresh_heap))"

definition past_heap_end :: heap where
  "past_heap_end = snd (malloc 0x10000 page_filled)"

text \<open>Three requests, the second of a size that makes the end of its block wrap around.\<close>

definition wrapping_sizes :: "32 word list" where
  "wrapping_sizes = [16, 0xFFFFFFE8, 8]"

section \<open>Basic facts\<close>

subsection \<open>Alignment arithmetic\<close>

lemma and_not3_push_drop: "(x::32 word) AND NOT 3 = push_bit 2 (drop_bit 2 x)"
proof -
  have m: "(3::32 word) = mask 2" by (simp add: mask_eq_exp_minus_1)
  have s: "\<And>n::nat. 2 \<le> n \<Longrightarrow> Suc (Suc (n - 2)) = n" by arith
  show ?thesis
    unfolding m
    by (rule bit_word_eqI) (auto simp add: bit_simps s not_less)
qed

lemma unat_and_not3: "unat ((x::32 word) AND NOT 3) = 4 * (unat x div 4)"
proof -
  have "unat x < 2 ^ 32" using unsigned_less [of x] by simp
  then have b: "4 * (unat x div 4) < 2 ^ 32" by simp
  have "unat (push_bit 2 (drop_bit 2 x)) = take_bit 32 (push_bit 2 (unat x div 4))"
    by (simp add: unsigned_push_bit_eq unat_drop_bit_eq drop_bit_eq_div unat_div)
  also have "\<dots> = 4 * (unat x div 4)"
    using b by (simp add: push_bit_eq_mult take_bit_nat_eq_self)
  finally show ?thesis by (simp only: and_not3_push_drop)
qed

lemma region_after_aligned: "region_after p n AND 3 = 0"
  by (simp add: region_after_def word_bw_assocs)

lemma unat_region_after:
  assumes "block_fits p n"
  shows "unat (region_after p n) = 4 * ((unat p + unat n + 7) div 4)"
proof -
  have "unat (p + 4 + n + 3) = unat p + unat n + 7"
    using assms unfolding block_fits_def
    by (simp add: unat_word_ariths)
  then show ?thesis
    unfolding region_after_def REGION_HEADER_def Let_def unat_and_not3 by simp
qed

lemma region_after_bounds:
  assumes "block_fits p n"
  shows "unat p + 4 + unat n \<le> unat (region_after p n)"
    and "unat (region_after p n) \<le> unat p + unat n + 7"
  using unat_region_after [OF assms] by presburger+

lemma region_for_ptr_payload [simp]: "region_for_ptr (p + 4) = p" "region_for_ptr p + 4 = p"
  by (simp_all add: region_for_ptr_def REGION_HEADER_def)

lemma region_after_mono:
  assumes "c \<le> b" and "block_fits p b"
  shows "region_after p c \<le> region_after p b"
proof -
  have cb: "unat c \<le> unat b" using assms(1) by (simp add: word_le_nat_alt)
  then have fc: "block_fits p c" using assms(2) by (simp add: block_fits_def)
  have "(unat p + unat c + 7) div 4 \<le> (unat p + unat b + 7) div 4"
    using cb by (intro div_le_mono) simp
  then show ?thesis
    by (simp add: word_le_nat_alt unat_region_after [OF fc] unat_region_after [OF assms(2)])
qed

lemma region_after_room:
  assumes "block_fits p n"
  shows "unat (region_after p n) + 3 < 2 ^ 32"
proof -
  have "4 * ((unat p + unat n + 7) div 4) + 3 < 2 ^ 32"
    using assms unfolding block_fits_def by simp presburger
  then show ?thesis by (simp add: unat_region_after [OF assms])
qed

lemma block_fits_room: "block_fits p n \<Longrightarrow> unat p + 3 < 2 ^ 32"
  by (simp add: block_fits_def)

lemma aligned_iff: "(p :: 32 word) AND 3 = 0 \<longleftrightarrow> unat p mod 4 = 0"
proof -
  have m: "(3::32 word) = mask 2" by (simp add: mask_eq_exp_minus_1)
  have "unat (p AND 3) = unat p mod 4"
    unfolding m by (simp add: take_bit_eq_mask [symmetric] unsigned_take_bit_eq take_bit_eq_mod unat_mod)
  then show ?thesis by (metis unat_eq_0)
qed

lemma aligned_payload:
  fixes p :: "32 word"
  assumes "p AND 3 = 0"
  shows "(p + 4) AND 3 = 0"
proof -
  have "unat (p + 4) mod 4 = ((unat p + 4) mod 2 ^ 32) mod 4"
    by (simp add: unat_word_ariths)
  also have "\<dots> = (unat p + 4) mod 4"
    by (rule mod_mod_cancel) simp
  finally show ?thesis using assms by (simp add: aligned_iff)
qed

subsection \<open>Loads and stores\<close>

lemma load32_store32_same: "load32 (store32 m a v) a = v"
  apply (simp add: load32_def store32_def)
  apply (rule bit_word_eqI)
  apply (auto simp add: bit_simps)
  subgoal for n by (cases "n < 24") simp_all
  done

lemma unat_add_small:
  fixes a :: "32 word"
  assumes "unat a + 3 < 2 ^ 32"
  shows "unat (a + 1) = unat a + 1" "unat (a + 2) = unat a + 2" "unat (a + 3) = unat a + 3"
  using assms by (simp_all add: unat_word_ariths)

lemma store32_below:
  assumes "unat x < unat a" and "unat a + 3 < 2 ^ 32"
  shows "store32 m a v x = m x"
proof -
  have "x \<noteq> a" "x \<noteq> a + 1" "x \<noteq> a + 2" "x \<noteq> a + 3"
    using assms unat_add_small [OF assms(2)] by auto
  then show ?thesis by (simp add: store32_def)
qed

lemma load32_store32_below:
  assumes "unat a + 4 \<le> unat b" and "unat b + 3 < 2 ^ 32"
  shows "load32 (store32 m b v) a = load32 m a"
proof -
  have "unat a + 3 < 2 ^ 32" using assms by simp
  note u = unat_add_small [OF this]
  have "store32 m b v a = m a" "store32 m b v (a + 1) = m (a + 1)"
    "store32 m b v (a + 2) = m (a + 2)" "store32 m b v (a + 3) = m (a + 3)"
    using assms u by (simp_all add: store32_below)
  then show ?thesis by (simp add: load32_def)
qed

subsection \<open>Growth\<close>

lemma refused_is_not_max: "uint (- 1 :: 32 word) \<noteq> 4194304"
  by (simp add: unsigned_minus_1_eq_mask mask_eq_exp_minus_1)

text \<open>
  \<open>grow_heap\<close> compares the host's answer with \<open>MAX_HEAP_SIZE\<close>. A granted growth answers
  with the old page count, at most 65536, and a refused one with \<open>-1\<close>: neither is
  \<open>MAX_HEAP_SIZE\<close>, so \<open>grow_heap\<close> reports success whatever the host answered.
\<close>

lemma grow_heap_true: "fst (grow_heap sz s)"
proof -
  let ?d = "(sz - 1) div PAGESIZE + 1"
  have b: "uint (mem_pages s) \<noteq> 4194304"
    if "unat (mem_pages s) + unat ?d \<le> min (page_limit s) 65536"
  proof
    assume "uint (mem_pages s) = 4194304"
    then have "unat (mem_pages s) = 4194304" by (simp add: unat_eq_nat_uint)
    with that show False by simp
  qed
  show ?thesis
  proof (cases "unat (mem_pages s) + unat ?d \<le> min (page_limit s) 65536")
    case True
    then have "wasm_memory_grow ?d s = (mem_pages s, s\<lparr>mem_pages := mem_pages s + ?d\<rparr>)"
      by (simp only: wasm_memory_grow_def if_True)
    with b [OF True] show ?thesis
      by (simp add: grow_heap_def MAX_HEAP_SIZE_def Let_def)
  next
    case False
    then have "wasm_memory_grow ?d s = (- 1, s)"
      by (simp only: wasm_memory_grow_def if_False)
    with refused_is_not_max show ?thesis
      by (simp add: grow_heap_def MAX_HEAP_SIZE_def Let_def)
  qed
qed

lemma grown_fields [simp]:
  "next_region (grown sz s) = next_region s"
  "mem (grown sz s) = mem s"
  "heap_start (grown sz s) = heap_start s"
  "page_limit (grown sz s) = page_limit s"
  by (simp_all add: grown_def grow_heap_def wasm_memory_grow_def Let_def)

subsection \<open>The two outcomes of \<open>malloc\<close>\<close>

lemma malloc_eq:
  "malloc sz s =
     (let e = region_after (next_region s) sz
      in if heap_end s < e \<and> MAX_HEAP_SIZE < sint (e - heap_start s) then (NULL, s)
         else place_region sz e (if heap_end s < e then grown sz s else s))"
  using grow_heap_true [of sz s]
  by (cases "grow_heap sz s") (simp add: malloc_def grown_def Let_def)

lemma malloc_success:
  assumes "fst (malloc sz s) \<noteq> NULL"
  shows "fst (malloc sz s) = next_region s + 4"
    and "next_region (snd (malloc sz s)) = region_after (next_region s) sz"
    and "mem (snd (malloc sz s)) = store32 (mem s) (next_region s) sz"
    and "heap_start (snd (malloc sz s)) = heap_start s"
  using assms
  by (simp_all add: malloc_eq place_region_def Let_def REGION_HEADER_def split: if_splits)

lemma malloc_null:
  assumes "fst (malloc sz s) = NULL" and "next_region s + 4 \<noteq> NULL"
  shows "snd (malloc sz s) = s"
  using assms
  by (simp add: malloc_eq place_region_def Let_def REGION_HEADER_def split: if_splits)

lemma malloc_mem:
  "mem (snd (malloc c s)) = mem s \<or> mem (snd (malloc c s)) = store32 (mem s) (next_region s) c"
  by (simp add: malloc_eq place_region_def Let_def)

text \<open>A block that ends within the capacity cap above \<open>heap_start\<close> is always placed.\<close>

lemma sint_small:
  fixes x :: "32 word"
  assumes "uint x < 2147483648"
  shows "sint x = uint x"
proof -
  have "- (2 ^ 31) \<le> (0::int)" by simp
  also have "0 \<le> uint x" by simp
  finally have "- (2 ^ 31) \<le> uint x" .
  moreover have "uint x < 2 ^ 31" using assms by simp
  ultimately have "signed_take_bit 31 (uint x) = uint x"
    by (rule signed_take_bit_int_eq_self)
  then show ?thesis by (simp add: sint_uint)
qed

lemma place_within_cap:
  assumes "heap_start s \<le> e" and "unat e \<le> unat (heap_start s) + 4194304"
    and "region_after p sz = e"
  shows "fst (malloc sz (s\<lparr>next_region := p\<rparr>)) = p + 4"
proof -
  have "unat (e - heap_start s) = unat e - unat (heap_start s)"
    using assms(1) by (rule unat_sub)
  then have "unat (e - heap_start s) \<le> 4194304" using assms(2) by simp
  then have u: "uint (e - heap_start s) \<le> 4194304"
    unfolding uint_nat by linarith
  then have "sint (e - heap_start s) = uint (e - heap_start s)"
    by (intro sint_small) linarith
  then have "sint (e - heap_start s) \<le> MAX_HEAP_SIZE"
    using u by (simp add: MAX_HEAP_SIZE_def)
  then show ?thesis
    using assms(3) by (simp add: malloc_eq place_region_def Let_def REGION_HEADER_def not_less)
qed

subsection \<open>Freeing the tail block\<close>

lemma free_tail:
  assumes "ptr \<noteq> NULL"
    and "region_after (region_for_ptr ptr) (load32 (mem s) (region_for_ptr ptr)) = next_region s"
  shows "free ptr s = s\<lparr>next_region := region_for_ptr ptr\<rparr>"
  using assms by (simp add: free_def Let_def)

lemma free_after_malloc:
  assumes "fst (malloc b s) \<noteq> NULL"
  shows "free (fst (malloc b s)) (snd (malloc b s)) = (snd (malloc b s))\<lparr>next_region := next_region s\<rparr>"
proof -
  note m = malloc_success [OF assms]
  have "free (fst (malloc b s)) (snd (malloc b s))
        = (snd (malloc b s))\<lparr>next_region := region_for_ptr (fst (malloc b s))\<rparr>"
    using assms by (intro free_tail) (simp_all add: m load32_store32_same)
  then show ?thesis by (simp add: m)
qed

subsection \<open>Sequences of allocations and frees\<close>

lemma malloc_all_Cons:
  "malloc_all (n # ns) s =
     (fst (malloc n s) # fst (malloc_all ns (snd (malloc n s))),
      snd (malloc_all ns (snd (malloc n s))))"
  by (simp add: case_prod_beta)

declare malloc_all.simps(2) [simp del]

lemma length_malloc_all: "length (fst (malloc_all ns s)) = length ns"
  by (induction ns arbitrary: s) (simp_all add: malloc_all_Cons)

lemma free_all_append: "free_all (xs @ ys) s = free_all ys (free_all xs s)"
  by (induction xs arbitrary: s) simp_all

lemma malloc_all_frame:
  assumes "NULL \<notin> set (fst (malloc_all ns s))" and "blocks_fit (next_region s) ns"
    and "unat x < unat (next_region s)"
  shows "mem (snd (malloc_all ns s)) x = mem s x"
  using assms
proof (induction ns arbitrary: s)
  case Nil
  then show ?case by simp
next
  case (Cons n ns)
  let ?s1 = "snd (malloc n s)"
  have ok: "fst (malloc n s) \<noteq> NULL" and rest: "NULL \<notin> set (fst (malloc_all ns ?s1))"
    using Cons.prems(1) by (auto simp add: malloc_all_Cons)
  note m = malloc_success [OF ok]
  have fits: "block_fits (next_region s) n" and fits': "blocks_fit (next_region ?s1) ns"
    using Cons.prems(2) by (simp_all add: m)
  have "unat (next_region s) \<le> unat (next_region ?s1)"
    using region_after_bounds(1) [OF fits] by (simp add: m)
  then have below: "unat x < unat (next_region ?s1)" using Cons.prems(3) by simp
  have "mem ?s1 x = mem s x"
    using Cons.prems(3) block_fits_room [OF fits] by (simp add: m store32_below)
  then show ?case
    using Cons.IH [OF rest fits' below] by (simp add: malloc_all_Cons)
qed

lemma lifo_free_all:
  assumes "NULL \<notin> set (fst (malloc_all ns s))" and "blocks_fit (next_region s) ns"
  shows "free_all (rev (fst (malloc_all ns s))) (snd (malloc_all ns s))
         = (snd (malloc_all ns s))\<lparr>next_region := next_region s\<rparr>"
  using assms
proof (induction ns arbitrary: s)
  case Nil
  then show ?case by simp
next
  case (Cons n ns)
  let ?p = "fst (malloc n s)" and ?s1 = "snd (malloc n s)"
  let ?ps = "fst (malloc_all ns ?s1)" and ?s2 = "snd (malloc_all ns ?s1)"
  have ok: "?p \<noteq> NULL" and rest: "NULL \<notin> set ?ps"
    using Cons.prems(1) by (auto simp add: malloc_all_Cons)
  note m = malloc_success [OF ok]
  have fits: "block_fits (next_region s) n" and fits': "blocks_fit (next_region ?s1) ns"
    using Cons.prems(2) by (simp_all add: m)
  have ih: "free_all (rev ?ps) ?s2 = ?s2\<lparr>next_region := next_region ?s1\<rparr>"
    by (rule Cons.IH [OF rest fits'])
  have room: "unat (next_region s) + 3 < 2 ^ 32" by (rule block_fits_room [OF fits])
  have far: "unat (next_region s) + 4 \<le> unat (next_region ?s1)"
    using region_after_bounds(1) [OF fits] by (simp add: m)
  have byte: "mem ?s2 (next_region s + k) = mem ?s1 (next_region s + k)"
    if "unat (next_region s + k) < unat (next_region ?s1)" for k
    by (rule malloc_all_frame [OF rest fits' that])
  have "mem ?s2 (next_region s) = mem ?s1 (next_region s)"
    using byte [of 0] far by simp
  moreover have "mem ?s2 (next_region s + 1) = mem ?s1 (next_region s + 1)"
    "mem ?s2 (next_region s + 2) = mem ?s1 (next_region s + 2)"
    "mem ?s2 (next_region s + 3) = mem ?s1 (next_region s + 3)"
    using far unat_add_small [OF room] by (simp_all add: byte)
  ultimately have "load32 (mem ?s2) (next_region s) = load32 (mem ?s1) (next_region s)"
    by (simp add: load32_def)
  then have hdr: "load32 (mem ?s2) (next_region s) = n"
    by (simp add: m load32_store32_same)
  have "free ?p (?s2\<lparr>next_region := next_region ?s1\<rparr>)
        = ?s2\<lparr>next_region := next_region ?s1\<rparr>\<lparr>next_region := region_for_ptr ?p\<rparr>"
    using ok by (intro free_tail) (simp_all add: m hdr)
  then have "free ?p (free_all (rev ?ps) ?s2) = ?s2\<lparr>next_region := next_region s\<rparr>"
    by (simp add: ih m)
  then show ?case
    by (simp add: malloc_all_Cons free_all_append)
qed

lemma lifo_free_partial:
  assumes "NULL \<notin> set (fst (malloc_all ns s))" and "blocks_fit (next_region s) ns"
  shows "free_all (rev (drop k (fst (malloc_all ns s)))) (snd (malloc_all ns s))
         = (snd (malloc_all ns s))\<lparr>next_region := next_region (snd (malloc_all (take k ns) s))\<rparr>"
  using assms
proof (induction ns arbitrary: s k)
  case Nil
  then show ?case by simp
next
  case (Cons n ns)
  show ?case
  proof (cases k)
    case 0
    then show ?thesis using lifo_free_all [OF Cons.prems] by simp
  next
    case (Suc j)
    let ?s1 = "snd (malloc n s)"
    have ok: "fst (malloc n s) \<noteq> NULL" and rest: "NULL \<notin> set (fst (malloc_all ns ?s1))"
      using Cons.prems(1) by (auto simp add: malloc_all_Cons)
    have fits': "blocks_fit (next_region ?s1) ns"
      using Cons.prems(2) by (simp add: malloc_success [OF ok])
    show ?thesis
      using Cons.IH [OF rest fits', of j] Suc by (simp add: malloc_all_Cons)
  qed
qed

lemma malloc_all_heap_start:
  assumes "NULL \<notin> set (fst (malloc_all ns s))"
  shows "heap_start (snd (malloc_all ns s)) = heap_start s"
  using assms
proof (induction ns arbitrary: s)
  case Nil
  then show ?case by simp
next
  case (Cons n ns)
  have ok: "fst (malloc n s) \<noteq> NULL"
    and rest: "NULL \<notin> set (fst (malloc_all ns (snd (malloc n s))))"
    using Cons.prems by (auto simp add: malloc_all_Cons)
  show ?case
    using Cons.IH [OF rest] malloc_success(4) [OF ok] by (simp add: malloc_all_Cons)
qed

lemmas eval_defs = malloc_def region_after_def REGION_HEADER_def MAX_HEAP_SIZE_def
  grow_heap_def wasm_memory_grow_def PAGESIZE_def get_heap_end_def wasm_memory_size_def
  place_region_def NULL_def refused_is_not_max

subsection \<open>The example states, evaluated\<close>

lemma one_block_eq:
  "one_block = roomy_heap\<lparr>mem := store32 (mem roomy_heap) 0x1000 16, next_region := 0x1014\<rparr>"
  by (simp add: one_block_def eval_defs roomy_heap_def)

lemma one_block_fields:
  "next_region one_block = 0x1014" "heap_start one_block = 0x1000"
  "heap_end one_block = 0x100000" "load32 (mem one_block) 0x1000 = 16"
  by (simp_all add: one_block_eq load32_store32_same) (simp_all add: roomy_heap_def)

lemma malloc_one_block:
  "malloc 32 one_block = (0x1018, one_block\<lparr>mem := store32 (mem one_block) 0x1014 32, next_region := 0x1038\<rparr>)"
  by (simp add: one_block_eq) (simp add: eval_defs roomy_heap_def)

lemma two_blocks_fields:
  "next_region two_blocks = 0x1038" "heap_start two_blocks = 0x1000"
  "heap_end two_blocks = 0x100000"
  by (simp_all add: two_blocks_def malloc_one_block one_block_fields)

lemma malloc_roomy: "fst (malloc 16 roomy_heap) = 0x1004"
  by (simp add: eval_defs roomy_heap_def)

lemma two_blocks_header_A: "load32 (mem two_blocks) 0x1000 = 16"
  by (simp add: two_blocks_def malloc_one_block)
    (simp add: one_block_eq load32_store32_below load32_store32_same)

lemma free_A_two_blocks: "free 0x1004 two_blocks = two_blocks"
  by (simp add: free_def NULL_def region_for_ptr_def REGION_HEADER_def two_blocks_header_A
      two_blocks_fields region_after_def)

lemma malloc_two_blocks: "fst (malloc 8 two_blocks) = 0x103C"
  by (simp add: malloc_eq place_region_def Let_def region_after_def REGION_HEADER_def
      two_blocks_fields)

lemma malloc_all_roomy:
  "fst (malloc_all three_sizes roomy_heap) = [0x1004, 0x1018, 0x103C]"
  "next_region (snd (malloc_all three_sizes roomy_heap)) = 0x1044"
  by (simp_all add: three_sizes_def malloc_all_Cons eval_defs roomy_heap_def)

lemma malloc_all_reset:
  "fst (malloc_all three_sizes (reset_heap 0x8000 fresh_heap)) = [0x8004, 0x8018, 0x803C]"
  "next_region (snd (malloc_all (take 1 three_sizes) (reset_heap 0x8000 fresh_heap))) = 0x8014"
  by (simp_all add: three_sizes_def malloc_all_Cons eval_defs reset_heap_def fresh_heap_def)

lemma page_filled_fields:
  "next_region page_filled = 0x10000" "heap_start page_filled = 0x8000"
  "heap_end page_filled = 0x10000"
  by (simp_all add: page_filled_def eval_defs reset_heap_def fresh_heap_def)

lemma malloc_page_filled:
  "fst (malloc 0x10000 page_filled) = 0x10004"
  "next_region past_heap_end = 0x20004" "heap_end past_heap_end = 0x20000"
  by (simp_all add: past_heap_end_def page_filled_def eval_defs reset_heap_def fresh_heap_def)

section \<open>Overflow of \<open>count * size\<close> in \<open>calloc\<close>\<close>

text \<open>
  Claim C1, as the spec states it: for every count and size whose product overflows the
  32-bit size arithmetic, \<open>calloc\<close> returns null before delegating to \<open>malloc\<close>.
  The code has no such check. With count 0x10000 and size 0x10001 the true product is
  \<open>2^32 + 0x10000\<close>; \<open>calloc\<close> asks \<open>malloc\<close> for the wrapped 0x10000 bytes and
  returns a non-null pointer to a block of that size.
\<close>

theorem calloc_overflow_counterexample:
  "2 ^ 32 \<le> unat (0x10000 :: 32 word) * unat (0x10001 :: 32 word)
   \<and> fst (calloc 0x10000 0x10001 roomy_heap) = 0x1004
   \<and> fst (calloc 0x10000 0x10001 roomy_heap) \<noteq> NULL
   \<and> next_region (snd (calloc 0x10000 0x10001 roomy_heap)) = 0x11004"
  by (simp add: calloc_def eval_defs roomy_heap_def)

text \<open>
  Claim C1, amended: \<open>calloc\<close> makes no overflow check. It multiplies count and size in
  wrapping 32-bit arithmetic and delegates to \<open>malloc\<close> with the wrapped product: it
  returns what \<open>malloc\<close> returns for the wrapped product, with the same cursor and heap
  end, and whenever the block for the wrapped product ends at or below \<open>heap_end\<close> it
  returns the payload right after the cursor and advances the cursor to the end of that
  (wrapped-size) block.
\<close>

theorem calloc_delegates_wrapped_product:
  "fst (calloc count sz s) = fst (malloc (count * sz) s)
   \<and> next_region (snd (calloc count sz s)) = next_region (snd (malloc (count * sz) s))
   \<and> heap_end (snd (calloc count sz s)) = heap_end (snd (malloc (count * sz) s))
   \<and> (region_after (next_region s) (count * sz) \<le> heap_end s \<longrightarrow>
        fst (calloc count sz s) = next_region s + REGION_HEADER
        \<and> next_region (snd (calloc count sz s)) = region_after (next_region s) (count * sz))"
  by (auto simp add: calloc_def malloc_eq place_region_def Let_def split: prod.splits)

theorem calloc_delegates_wrapped_product_witness:
  "region_after (next_region roomy_heap) (0x10000 * 0x10001) \<le> heap_end roomy_heap
   \<and> fst (calloc 0x10000 0x10001 roomy_heap) = 0x1004
   \<and> next_region (snd (calloc 0x10000 0x10001 roomy_heap)) = 0x11004"
proof -
  have v: "region_after (next_region roomy_heap) (0x10000 * 0x10001) = 0x11004"
    by (simp add: roomy_heap_def region_after_def REGION_HEADER_def)
  have h: "region_after (next_region roomy_heap) (0x10000 * 0x10001) \<le> heap_end roomy_heap"
    unfolding v by (simp add: roomy_heap_def)
  have n: "next_region roomy_heap + REGION_HEADER = 0x1004"
    by (simp add: roomy_heap_def REGION_HEADER_def)
  show ?thesis
    using calloc_delegates_wrapped_product [of "0x10000" "0x10001" roomy_heap] h
    unfolding v n by blast
qed

section \<open>Growth refused by the host\<close>

text \<open>
  Whatever the host answers, a request that passes the capacity check is placed: the
  answer of the host only decides which \<open>heap_end\<close> is recorded.
\<close>

lemma malloc_places_after_growth_request:
  assumes "heap_end s < region_after (next_region s) sz"
    and "sint (region_after (next_region s) sz - heap_start s) \<le> MAX_HEAP_SIZE"
  shows "malloc sz s = place_region sz (region_after (next_region s) sz) (grown sz s)"
  using assms by (simp add: malloc_eq Let_def not_less)

text \<open>
  Claim C2: when the footprint exceeds \<open>heap_end\<close> but not the capacity cap and the host
  refuses the growth request, \<open>malloc\<close> returns null and changes no state. The code
  does not do so. On the one-page memory whose host grants nothing, a request of 0x10000
  bytes ends at 0x11004, beyond \<open>heap_end\<close> and within the cap; the host answers the
  growth request for one page with \<open>-1\<close>; \<open>grow_heap\<close> compares that answer with
  \<open>MAX_HEAP_SIZE\<close>, so it reports success, and \<open>malloc\<close> returns the non-null payload
  0x1004 and moves the cursor to 0x11004, past the unchanged \<open>heap_end\<close>.
\<close>

theorem malloc_refused_growth:
  "heap_end small_heap < region_after (next_region small_heap) 0x10000
   \<and> sint (region_after (next_region small_heap) 0x10000 - heap_start small_heap) \<le> MAX_HEAP_SIZE
   \<and> wasm_memory_grow ((0x10000 - 1) div PAGESIZE + 1) small_heap = (- 1, small_heap)
   \<and> fst (malloc 0x10000 small_heap) = 0x1004
   \<and> fst (malloc 0x10000 small_heap) \<noteq> NULL
   \<and> next_region (snd (malloc 0x10000 small_heap)) = 0x11004
   \<and> heap_end (snd (malloc 0x10000 small_heap)) = 0x10000
   \<and> snd (malloc 0x10000 small_heap) \<noteq> small_heap"
  by (simp add: eval_defs small_heap_def)

section \<open>Zero filling in \<open>calloc\<close>\<close>

text \<open>When \<open>malloc\<close> succeeds, the payload bytes of the wrapped product are zero.\<close>

lemma calloc_zero_filled:
  assumes "i < count * sz"
  shows "mem (snd (calloc count sz s)) (fst (calloc count sz s) + i) = 0"
  using assms by (simp add: calloc_def memset_def split: prod.splits)

text \<open>
  Claim C3: when the underlying \<open>malloc\<close> succeeds all payload bytes are zero, and when
  it fails \<open>calloc\<close> returns null without writing to memory. The second half fails on
  the code: \<open>memset\<close> is called on the result whatever it is. On the 80-page memory,
  \<open>calloc(0x4F0, 0x1000)\<close> exceeds the cap, \<open>malloc\<close> returns null, and \<open>calloc\<close>
  returns null after zeroing the 0x4F0000 bytes from address 0 on, all inside the memory.
\<close>

theorem calloc_writes_on_failure:
  "fst (calloc 0x4F0 0x1000 wide_heap) = NULL
   \<and> mem wide_heap 0 = 0xAA
   \<and> mem (snd (calloc 0x4F0 0x1000 wide_heap)) 0 = 0
   \<and> mem wide_heap 0x4EFFFF = 0xAA
   \<and> mem (snd (calloc 0x4F0 0x1000 wide_heap)) 0x4EFFFF = 0"
  by (simp add: calloc_def eval_defs wide_heap_def memset_def)

section \<open>Exhaustion leaves the state alone\<close>

text \<open>
  Claim C4: whenever \<open>malloc\<close> returns null, the allocator state is exactly what it was
  before the call, and a following \<open>malloc\<close> behaves as it would have before the failed
  call. The null result is the exhaustion signal when the payload address at the cursor
  is not itself the null address, that is, the cursor is not 0xFFFFFFFC.
\<close>

theorem malloc_null_stateless:
  assumes "fst (malloc sz s) = NULL" and "next_region s + REGION_HEADER \<noteq> NULL"
  shows "snd (malloc sz s) = s \<and> malloc sz' (snd (malloc sz s)) = malloc sz' s"
  using malloc_null [of sz s] assms by (simp add: REGION_HEADER_def)

theorem malloc_null_stateless_witness:
  "fst (malloc 0x4F0000 wide_heap) = NULL
   \<and> next_region wide_heap + REGION_HEADER \<noteq> NULL
   \<and> snd (malloc 0x4F0000 wide_heap) = wide_heap
   \<and> malloc 16 (snd (malloc 0x4F0000 wide_heap)) = malloc 16 wide_heap
   \<and> fst (malloc 16 (snd (malloc 0x4F0000 wide_heap))) = 0x10004"
proof -
  have a: "fst (malloc 0x4F0000 wide_heap) = NULL"
    by (simp add: eval_defs wide_heap_def)
  have b: "next_region wide_heap + REGION_HEADER \<noteq> NULL"
    by (simp add: wide_heap_def REGION_HEADER_def NULL_def)
  have c: "fst (malloc 16 wide_heap) = 0x10004"
    by (simp add: eval_defs wide_heap_def)
  show ?thesis
    using malloc_null_stateless [OF a b, of 16] a b c by simp
qed

section \<open>The invariant on the cursor\<close>

text \<open>
  Where no growth is involved the invariant is kept: \<open>reset_heap\<close> at an address
  inside the memory establishes it, and a \<open>malloc\<close> whose block does not wrap around
  and ends at or below \<open>heap_end\<close> preserves it.
\<close>

lemma reset_heap_inv:
  assumes "new_heap_start \<le> get_heap_end s"
  shows "heap_inv (reset_heap new_heap_start s)"
  using assms by (simp add: heap_inv_def reset_heap_def)

lemma malloc_within_heap_inv:
  assumes "heap_inv s" and "block_fits (next_region s) sz"
    and "region_after (next_region s) sz \<le> heap_end s"
  shows "heap_inv (snd (malloc sz s))"
proof -
  have "unat (next_region s) \<le> unat (region_after (next_region s) sz)"
    using region_after_bounds(1) [OF assms(2)] by simp
  then have "next_region s \<le> region_after (next_region s) sz"
    by (simp add: word_le_nat_alt)
  then show ?thesis
    using assms(1,3) by (auto simp add: malloc_eq place_region_def Let_def heap_inv_def)
qed

text \<open>
  Claim C5: \<open>heap_start \<le> next \<le> heap_end\<close> is established by \<open>reset_heap\<close> and kept
  by every operation, also by a \<open>malloc\<close> that succeeds after growing the memory. The
  code loses the invariant in exactly that case: \<open>grow_heap\<close> asks for the pages that
  hold \<open>size\<close> bytes, not for the shortfall of the block with its header. After
  \<open>reset_heap(0x8000)\<close> on a one-page memory and \<open>malloc(0x7FFC)\<close>, which fills the page
  exactly, \<open>malloc(0x10000)\<close> needs 0x10004 bytes, the host grants the one page asked
  for, and the cursor ends at 0x20004, beyond the new \<open>heap_end\<close> 0x20000.
\<close>

theorem growth_breaks_invariant:
  "heap_inv (reset_heap 0x8000 fresh_heap)
   \<and> fst (malloc 0x7FFC (reset_heap 0x8000 fresh_heap)) = 0x8004
   \<and> heap_inv (snd (malloc 0x7FFC (reset_heap 0x8000 fresh_heap)))
   \<and> fst (malloc 0x10000 (snd (malloc 0x7FFC (reset_heap 0x8000 fresh_heap)))) = 0x10004
   \<and> mem_pages (snd (malloc 0x10000 (snd (malloc 0x7FFC (reset_heap 0x8000 fresh_heap))))) = 2
   \<and> heap_end (snd (malloc 0x10000 (snd (malloc 0x7FFC (reset_heap 0x8000 fresh_heap))))) = 0x20000
   \<and> next_region (snd (malloc 0x10000 (snd (malloc 0x7FFC (reset_heap 0x8000 fresh_heap))))) = 0x20004
   \<and> \<not> heap_inv (snd (malloc 0x10000 (snd (malloc 0x7FFC (reset_heap 0x8000 fresh_heap)))))"
  by (simp add: eval_defs fresh_heap_def reset_heap_def heap_inv_def)

section \<open>Reallocating the tail block\<close>

text \<open>
  Claim C6: for a non-null pointer whose block ends at the cursor, \<open>realloc\<close> rewinds the
  cursor to the block's header and then runs \<open>malloc\<close> for the new size from there. On
  success it returns the same payload address, and the memory differs from before only
  in the rewritten header: nothing is copied. The rewind comes before the \<open>malloc\<close>
  attempt, so when that attempt fails the state is the old one with the cursor already
  at the block's header.
\<close>

theorem realloc_tail_in_place:
  assumes "ptr \<noteq> NULL"
    and "region_after (region_for_ptr ptr) (load32 (mem s) (region_for_ptr ptr)) = next_region s"
  shows "realloc ptr new_size s = malloc new_size (s\<lparr>next_region := region_for_ptr ptr\<rparr>)
    \<and> (fst (realloc ptr new_size s) \<noteq> NULL \<longrightarrow>
          fst (realloc ptr new_size s) = ptr
          \<and> next_region (snd (realloc ptr new_size s)) = region_after (region_for_ptr ptr) new_size
          \<and> mem (snd (realloc ptr new_size s)) = store32 (mem s) (region_for_ptr ptr) new_size)
    \<and> (fst (realloc ptr new_size s) = NULL \<longrightarrow>
          snd (realloc ptr new_size s) = s\<lparr>next_region := region_for_ptr ptr\<rparr>)"
proof -
  let ?s = "s\<lparr>next_region := region_for_ptr ptr\<rparr>"
  have r: "realloc ptr new_size s = malloc new_size ?s"
    using assms by (simp add: realloc_def Let_def)
  have n: "next_region ?s + 4 \<noteq> NULL" using assms(1) by simp
  show ?thesis
    unfolding r
    using malloc_success [of new_size ?s] malloc_null [of new_size ?s, OF _ n]
    by auto
qed

theorem realloc_tail_in_place_witness:
  "(0x1004 :: addr) \<noteq> NULL
   \<and> region_after (region_for_ptr 0x1004) (load32 (mem one_block) (region_for_ptr 0x1004))
       = next_region one_block
   \<and> fst (realloc 0x1004 64 one_block) = 0x1004
   \<and> next_region (snd (realloc 0x1004 64 one_block)) = 0x1044
   \<and> mem (snd (realloc 0x1004 64 one_block)) = store32 (mem one_block) 0x1000 64
   \<and> fst (realloc 0x1004 0x400000 one_block) = NULL
   \<and> next_region (snd (realloc 0x1004 0x400000 one_block)) = 0x1000"
proof -
  have r: "region_for_ptr 0x1004 = 0x1000"
    by (simp add: region_for_ptr_def REGION_HEADER_def)
  have h1: "(0x1004 :: addr) \<noteq> NULL" by (simp add: NULL_def)
  have h2: "region_after (region_for_ptr 0x1004) (load32 (mem one_block) (region_for_ptr 0x1004))
            = next_region one_block"
    by (simp add: r one_block_fields) (simp add: region_after_def REGION_HEADER_def)
  have e: "region_after 0x1000 64 = 0x1044"
    by (simp add: region_after_def REGION_HEADER_def)
  have m1: "fst (malloc 64 (one_block\<lparr>next_region := 0x1000\<rparr>)) \<noteq> NULL"
    by (simp add: malloc_eq place_region_def e one_block_fields) (simp add: REGION_HEADER_def NULL_def)
  have m2: "fst (malloc 0x400000 (one_block\<lparr>next_region := 0x1000\<rparr>)) = NULL"
    by (simp add: malloc_eq one_block_fields)
      (simp add: region_after_def REGION_HEADER_def MAX_HEAP_SIZE_def)
  note t1 = realloc_tail_in_place [OF h1 h2, of 64, unfolded r e]
  note t2 = realloc_tail_in_place [OF h1 h2, of "0x400000", unfolded r]
  have ok: "fst (realloc 0x1004 64 one_block) \<noteq> NULL"
    using t1 m1 by simp
  have ko: "fst (realloc 0x1004 0x400000 one_block) = NULL"
    using t2 m2 by simp
  have s: "fst (realloc 0x1004 64 one_block) = 0x1004
           \<and> next_region (snd (realloc 0x1004 64 one_block)) = 0x1044
           \<and> mem (snd (realloc 0x1004 64 one_block)) = store32 (mem one_block) 0x1000 64"
    using t1 ok by blast
  have "snd (realloc 0x1004 0x400000 one_block) = one_block\<lparr>next_region := 0x1000\<rparr>"
    using t2 ko by blast
  then have f: "next_region (snd (realloc 0x1004 0x400000 one_block)) = 0x1000"
    by simp
  show ?thesis
    using h1 h2 s ko f by blast
qed

section \<open>Freeing the tail block and allocating again\<close>

text \<open>
  Claim C7, as the spec states it: for every state, after \<open>malloc(A)\<close>, \<open>malloc(B)\<close>
  and \<open>free(B)\<close>, a \<open>malloc(C)\<close> with the size of \<open>C\<close> at most that of \<open>B\<close> returns
  the payload address of \<open>B\<close>. Two runs on the roomy heap after \<open>malloc(16)\<close> show
  otherwise. With \<open>B\<close> of 0xFFFFFFF0 bytes the end of its block wraps around to 0x1008,
  below \<open>heap_end\<close>, so \<open>B\<close> is placed at 0x1018; after \<open>free(B)\<close> a \<open>malloc\<close> of
  0x400000 bytes exceeds the cap and returns null. With \<open>B\<close> of 0x80000000 bytes the
  signed capacity test lets the block through and \<open>B\<close> is placed at 0x1018 with its end
  far beyond \<open>heap_end\<close>; after \<open>free(B)\<close> a \<open>malloc\<close> of 0x70000000 bytes exceeds the
  cap and returns null.
\<close>

theorem tail_free_counterexample:
  "fst (malloc 0xFFFFFFF0 one_block) = 0x1018
   \<and> (0x400000 :: 32 word) \<le> 0xFFFFFFF0
   \<and> fst (malloc 0x400000 (free 0x1018 (snd (malloc 0xFFFFFFF0 one_block)))) = NULL
   \<and> fst (malloc 0x80000000 one_block) = 0x1018
   \<and> (0x70000000 :: 32 word) \<le> 0x80000000
   \<and> fst (malloc 0x70000000 (free 0x1018 (snd (malloc 0x80000000 one_block)))) = NULL
   \<and> (0x1018 :: addr) \<noteq> NULL"
  by (simp add: one_block_eq)
    (simp add: eval_defs roomy_heap_def free_def region_for_ptr_def load32_store32_same)

text \<open>
  Claim C7, amended: after \<open>malloc(A)\<close>, a successful \<open>malloc(B)\<close> and \<open>free(B)\<close>, the
  cursor is back at the header of \<open>B\<close>, so every \<open>malloc(C)\<close> that succeeds returns the
  payload address of \<open>B\<close>. When the size of \<open>C\<close> is at most that of \<open>B\<close>, the block
  of \<open>B\<close> does not wrap around the address space, and it ends at or below \<open>heap_end\<close>
  or, with the cursor not below \<open>heap_start\<close>, within the 4 MiB cap above \<open>heap_start\<close>,
  then \<open>malloc(C)\<close> does succeed and returns the payload address of \<open>B\<close>.
\<close>

theorem tail_free_reclaims:
  assumes "fst (malloc b (snd (malloc a s))) \<noteq> NULL"
  shows "(let s1 = snd (malloc a s); pB = fst (malloc b s1); s2 = snd (malloc b s1);
              s3 = free pB s2; pC = fst (malloc c s3)
          in next_region s3 = region_for_ptr pB
             \<and> (pC \<noteq> NULL \<longrightarrow> pC = pB)
             \<and> (c \<le> b \<and> block_fits (next_region s1) b
                  \<and> (next_region s2 \<le> heap_end s2
                      \<or> heap_start s1 \<le> next_region s1
                        \<and> unat (next_region s2) \<le> unat (heap_start s1) + 4194304)
                  \<longrightarrow> pC = pB))"
proof -
  define s1 where "s1 = snd (malloc a s)"
  define s2 where "s2 = snd (malloc b s1)"
  define s3 where "s3 = free (fst (malloc b s1)) s2"
  have ok: "fst (malloc b s1) \<noteq> NULL" using assms by (simp add: s1_def)
  note m = malloc_success [OF ok]
  have s3: "s3 = s2\<lparr>next_region := next_region s1\<rparr>"
    unfolding s3_def s2_def by (rule free_after_malloc [OF ok])
  have c1: "next_region s3 = region_for_ptr (fst (malloc b s1))"
    by (simp add: s3 m)
  have c2: "fst (malloc c s3) = fst (malloc b s1)" if "fst (malloc c s3) \<noteq> NULL"
    using malloc_success(1) [OF that] by (simp add: s3 m)
  have mono: "region_after (next_region s1) c \<le> region_after (next_region s1) b"
    if "c \<le> b" "block_fits (next_region s1) b"
    using that by (intro region_after_mono)
  have c3: "fst (malloc c s3) = fst (malloc b s1)"
    if "c \<le> b" "block_fits (next_region s1) b" "next_region s2 \<le> heap_end s2"
  proof -
    note mono [OF that(1,2)]
    also have "region_after (next_region s1) b = next_region s2" by (simp add: s2_def m)
    also have "\<dots> \<le> heap_end s3" using that by (simp add: s3)
    finally have "\<not> heap_end s3 < region_after (next_region s3) c"
      by (simp add: s3 not_less)
    then show ?thesis
      by (simp add: malloc_eq [of c s3] place_region_def REGION_HEADER_def m) (simp add: s3)
  qed
  have c4: "fst (malloc c s3) = fst (malloc b s1)"
    if "c \<le> b" "block_fits (next_region s1) b" "heap_start s1 \<le> next_region s1"
      "unat (next_region s2) \<le> unat (heap_start s1) + 4194304"
  proof -
    have fc: "block_fits (next_region s1) c"
      using that(1,2) by (simp add: block_fits_def word_le_nat_alt)
    have hs: "heap_start s2 = heap_start s1" by (simp add: s2_def m)
    have "unat (heap_start s1) \<le> unat (next_region s1)"
      using that(3) by (simp add: word_le_nat_alt)
    also have "\<dots> \<le> unat (region_after (next_region s1) c)"
      using region_after_bounds(1) [OF fc] by simp
    finally have lo: "heap_start s2 \<le> region_after (next_region s1) c"
      by (simp add: word_le_nat_alt hs)
    have "unat (region_after (next_region s1) c) \<le> unat (next_region s2)"
      using mono [OF that(1,2)] by (simp add: word_le_nat_alt s2_def m)
    then have hi: "unat (region_after (next_region s1) c) \<le> unat (heap_start s2) + 4194304"
      using that(4) by (simp add: hs)
    show ?thesis
      using place_within_cap [OF lo hi refl] by (simp add: s3 m)
  qed
  show ?thesis
    using c1 c2 c3 c4 unfolding Let_def s3_def s2_def s1_def by blast
qed

theorem tail_free_reclaims_witness:
  "fst (malloc 32 (snd (malloc 16 roomy_heap))) \<noteq> NULL
   \<and> (8 :: 32 word) \<le> 32
   \<and> block_fits (next_region one_block) 32
   \<and> next_region two_blocks \<le> heap_end two_blocks
   \<and> fst (malloc 32 one_block) = 0x1018
   \<and> next_region (free 0x1018 two_blocks) = 0x1014
   \<and> fst (malloc 8 (free 0x1018 two_blocks)) = 0x1018
   \<and> fst (malloc 0x10000 (snd (malloc 0x7FFC (reset_heap 0x8000 fresh_heap)))) \<noteq> NULL
   \<and> (0x10000 :: 32 word) \<le> 0x10000
   \<and> block_fits (next_region page_filled) 0x10000
   \<and> heap_end past_heap_end < next_region past_heap_end
   \<and> heap_start page_filled \<le> next_region page_filled
   \<and> unat (next_region past_heap_end) \<le> unat (heap_start page_filled) + 4194304
   \<and> fst (malloc 0x10000 page_filled) = 0x10004
   \<and> fst (malloc 0x10000 (free 0x10004 past_heap_end)) = 0x10004"
proof -
  have pB: "fst (malloc 32 one_block) = 0x1018" by (simp add: malloc_one_block)
  have h: "fst (malloc 32 (snd (malloc 16 roomy_heap))) \<noteq> NULL"
    by (simp add: one_block_def [symmetric] pB NULL_def)
  have le: "(8 :: 32 word) \<le> 32" by simp
  have fits: "block_fits (next_region one_block) 32"
    by (simp add: one_block_fields block_fits_def)
  have inside: "next_region two_blocks \<le> heap_end two_blocks"
    by (simp add: two_blocks_fields)
  have r: "region_for_ptr 0x1018 = 0x1014"
    by (simp add: region_for_ptr_def REGION_HEADER_def)
  note t = tail_free_reclaims [OF h, of 8, unfolded Let_def,
      folded one_block_def, folded two_blocks_def, unfolded pB r]
  have c1: "next_region (free 0x1018 two_blocks) = 0x1014" using t by blast
  have c3: "fst (malloc 8 (free 0x1018 two_blocks)) = 0x1018"
    using t le fits inside by blast
  have pB': "fst (malloc 0x10000 page_filled) = 0x10004" by (rule malloc_page_filled)
  have h': "fst (malloc 0x10000 (snd (malloc 0x7FFC (reset_heap 0x8000 fresh_heap)))) \<noteq> NULL"
    by (simp add: page_filled_def [symmetric] pB' NULL_def)
  have le': "(0x10000 :: 32 word) \<le> 0x10000" by simp
  have fits': "block_fits (next_region page_filled) 0x10000"
    by (simp add: page_filled_fields block_fits_def)
  have outside: "heap_end past_heap_end < next_region past_heap_end"
    by (simp add: malloc_page_filled)
  have above: "heap_start page_filled \<le> next_region page_filled"
    by (simp add: page_filled_fields)
  have cap: "unat (next_region past_heap_end) \<le> unat (heap_start page_filled) + 4194304"
    by (simp add: page_filled_fields malloc_page_filled)
  note t' = tail_free_reclaims [OF h', of "0x10000", unfolded Let_def,
      folded page_filled_def, folded past_heap_end_def, unfolded pB']
  have c4: "fst (malloc 0x10000 (free 0x10004 past_heap_end)) = 0x10004"
    using t' le' fits' above cap by blast
  show ?thesis
    using h le fits inside pB c1 c3 h' le' fits' outside above cap pB' c4 by blast
qed

section \<open>Freeing a block that is not the tail\<close>

text \<open>
  Claim C8, as the spec states it: after \<open>malloc(A)\<close>, \<open>malloc(B)\<close>, \<open>free(A)\<close>, the
  next \<open>malloc(C)\<close> returns the address equal to the end of the block of \<open>B\<close>. The
  address returned is the payload of \<open>C\<close>; what sits at the end of \<open>B\<close> is the header
  of \<open>C\<close>, four bytes below. With sizes 16, 32 and 8 on the roomy heap the block of
  \<open>B\<close> ends at 0x1038 and \<open>malloc(C)\<close> returns 0x103C.
\<close>

theorem non_tail_free_counterexample:
  "fst (malloc 16 roomy_heap) = 0x1004
   \<and> fst (malloc 32 (snd (malloc 16 roomy_heap))) = 0x1018
   \<and> free 0x1004 two_blocks = two_blocks
   \<and> region_after (region_for_ptr 0x1018) 32 = 0x1038
   \<and> fst (malloc 8 (free 0x1004 two_blocks)) = 0x103C
   \<and> fst (malloc 8 (free 0x1004 two_blocks)) \<noteq> region_after (region_for_ptr 0x1018) 32"
proof -
  have e: "region_after (region_for_ptr 0x1018) 32 = 0x1038"
    by (simp add: region_after_def region_for_ptr_def REGION_HEADER_def)
  show ?thesis
    by (simp add: malloc_roomy one_block_def [symmetric] malloc_one_block free_A_two_blocks
        malloc_two_blocks e)
qed

text \<open>
  Claim C8, amended: freeing null changes nothing, and after successful \<open>malloc(A)\<close> and
  \<open>malloc(B)\<close> whose blocks do not wrap around the address space, \<open>free(A)\<close> changes
  nothing; a following successful \<open>malloc(C)\<close> places the header of \<open>C\<close> at the end of
  the block of \<open>B\<close> and returns the payload four bytes after it; and every payload byte
  of \<open>A\<close> is afterwards what it was when \<open>A\<close> was allocated.
\<close>

theorem non_tail_free_keeps_layout:
  assumes "fst (malloc a s) \<noteq> NULL" and "fst (malloc b (snd (malloc a s))) \<noteq> NULL"
    and "block_fits (next_region s) a" and "block_fits (next_region (snd (malloc a s))) b"
  shows "(let pA = fst (malloc a s); s1 = snd (malloc a s);
              pB = fst (malloc b s1); s2 = snd (malloc b s1);
              s3 = free pA s2; pC = fst (malloc c s3); s4 = snd (malloc c s3)
          in s3 = s2 \<and> free NULL s2 = s2
             \<and> (pC \<noteq> NULL \<longrightarrow> region_for_ptr pC = region_after (region_for_ptr pB) b
                               \<and> pC = region_after (region_for_ptr pB) b + REGION_HEADER)
             \<and> (\<forall>i. i < a \<longrightarrow> mem s4 (pA + i) = mem s1 (pA + i)))"
proof -
  define n0 where "n0 = next_region s"
  define s1 where "s1 = snd (malloc a s)"
  define n1 where "n1 = next_region s1"
  define s2 where "s2 = snd (malloc b s1)"
  define n2 where "n2 = next_region s2"
  have okA: "fst (malloc a s) \<noteq> NULL" and okB: "fst (malloc b s1) \<noteq> NULL"
    and fA: "block_fits n0 a" and fB: "block_fits n1 b"
    using assms by (simp_all add: s1_def n0_def n1_def)
  have pA: "fst (malloc a s) = n0 + 4" and n1: "n1 = region_after n0 a"
    and m1: "mem s1 = store32 (mem s) n0 a"
    using malloc_success [OF okA] by (simp_all add: s1_def n0_def n1_def)
  have pB: "fst (malloc b s1) = n1 + 4" and n2: "n2 = region_after n1 b"
    and m2: "mem s2 = store32 (mem s1) n1 b"
    using malloc_success [OF okB] by (simp_all add: s2_def n1_def n2_def)
  have b1: "unat n0 + 4 + unat a \<le> unat n1"
    using region_after_bounds(1) [OF fA] by (simp add: n1)
  have b2: "unat n1 + 4 + unat b \<le> unat n2"
    using region_after_bounds(1) [OF fB] by (simp add: n2)
  have r1: "unat n1 + 3 < 2 ^ 32" using fB by (rule block_fits_room)
  have r2: "unat n2 + 3 < 2 ^ 32" unfolding n2 using fB by (rule region_after_room)
  have hdr: "load32 (mem s2) n0 = a"
    using b1 r1 by (simp add: m2 m1 load32_store32_below load32_store32_same)
  have "n1 \<noteq> n2" using b2 by auto
  then have fr: "free (fst (malloc a s)) s2 = s2"
    by (simp add: free_def Let_def pA hdr n1 [symmetric] n2_def)
  have fn: "free NULL s2 = s2" by (simp add: free_def)
  have c: "region_for_ptr (fst (malloc c s2)) = n2 \<and> fst (malloc c s2) = n2 + REGION_HEADER"
    if "fst (malloc c s2) \<noteq> NULL"
    using malloc_success(1) [OF that] by (simp add: n2_def REGION_HEADER_def)
  have bytes: "mem (snd (malloc c s2)) (fst (malloc a s) + i) = mem s1 (fst (malloc a s) + i)"
    if "i < a" for i
  proof -
    have ia: "unat i < unat a" using that by (simp add: word_less_nat_alt)
    have "unat n0 + 4 + unat i < 2 ^ 32" using fA ia by (simp add: block_fits_def)
    then have x: "unat (n0 + 4 + i) = unat n0 + 4 + unat i"
      by (simp add: unat_word_ariths)
    have x1: "unat (n0 + 4 + i) < unat n1" using x ia b1 by simp
    have x2: "unat (n0 + 4 + i) < unat n2" using x1 b2 by simp
    have k2: "mem s2 (n0 + 4 + i) = mem s1 (n0 + 4 + i)"
      using x1 r1 by (simp add: m2 store32_below)
    have "store32 (mem s2) n2 c (n0 + 4 + i) = mem s2 (n0 + 4 + i)"
      using x2 r2 by (simp add: store32_below)
    then show ?thesis
      using malloc_mem [of c s2] k2 by (auto simp add: pA n2_def)
  qed
  show ?thesis
    unfolding Let_def
    using fr fn c bytes
    by (simp add: s1_def [symmetric] s2_def [symmetric] pB n2 [symmetric])
qed

theorem non_tail_free_keeps_layout_witness:
  "fst (malloc 16 roomy_heap) \<noteq> NULL
   \<and> fst (malloc 32 (snd (malloc 16 roomy_heap))) \<noteq> NULL
   \<and> block_fits (next_region roomy_heap) 16
   \<and> block_fits (next_region (snd (malloc 16 roomy_heap))) 32
   \<and> (5 :: 32 word) < 16
   \<and> free 0x1004 two_blocks = two_blocks
   \<and> fst (malloc 8 (free 0x1004 two_blocks)) \<noteq> NULL
   \<and> fst (malloc 8 (free 0x1004 two_blocks)) = region_after (region_for_ptr 0x1018) 32 + REGION_HEADER
   \<and> mem (snd (malloc 8 (free 0x1004 two_blocks))) (0x1004 + 5) = mem one_block (0x1004 + 5)"
proof -
  have h1: "fst (malloc 16 roomy_heap) \<noteq> NULL"
    by (simp add: malloc_roomy NULL_def)
  have h2: "fst (malloc 32 (snd (malloc 16 roomy_heap))) \<noteq> NULL"
    by (simp add: one_block_def [symmetric] malloc_one_block NULL_def)
  have h3: "block_fits (next_region roomy_heap) 16"
    by (simp add: block_fits_def roomy_heap_def)
  have h4: "block_fits (next_region (snd (malloc 16 roomy_heap))) 32"
    by (simp add: one_block_def [symmetric] one_block_fields block_fits_def)
  have pB: "fst (malloc 32 one_block) = 0x1018" by (simp add: malloc_one_block)
  note t = non_tail_free_keeps_layout [OF h1 h2 h3 h4, of 8, unfolded Let_def,
      folded one_block_def, folded two_blocks_def, unfolded malloc_roomy pB]
  have i: "(5 :: 32 word) < 16" by simp
  have c1: "free 0x1004 two_blocks = two_blocks" using t by blast
  have ok: "fst (malloc 8 (free 0x1004 two_blocks)) \<noteq> NULL"
    by (simp add: c1 malloc_two_blocks NULL_def)
  have c3: "fst (malloc 8 (free 0x1004 two_blocks))
            = region_after (region_for_ptr 0x1018) 32 + REGION_HEADER"
    using t ok by blast
  have c4: "mem (snd (malloc 8 (free 0x1004 two_blocks))) (0x1004 + 5) = mem one_block (0x1004 + 5)"
    using t i by blast
  show ?thesis using h1 h2 h3 h4 i c1 ok c3 c4 by blast
qed

section \<open>Sequential layout\<close>

text \<open>
  Claim C9: for any sequence of successful allocations that starts with the cursor at a
  4-byte-aligned address, one pointer is returned per request, the first header is at
  the initial cursor, every returned payload address is 4-byte aligned, the end of each
  block computed from its header address and size is the header address of the next
  block, and the end of the last block is the final cursor.
\<close>

theorem sequential_layout:
  assumes "next_region s AND 3 = 0" and "NULL \<notin> set (fst (malloc_all ns s))"
  shows "length (fst (malloc_all ns s)) = length ns
    \<and> (ns = [] \<longrightarrow> next_region (snd (malloc_all ns s)) = next_region s)
    \<and> (ns \<noteq> [] \<longrightarrow> region_for_ptr (fst (malloc_all ns s) ! 0) = next_region s)
    \<and> (\<forall>i<length ns.
          fst (malloc_all ns s) ! i AND 3 = 0
          \<and> region_after (region_for_ptr (fst (malloc_all ns s) ! i)) (ns ! i)
              = (if Suc i < length ns then region_for_ptr (fst (malloc_all ns s) ! Suc i)
                 else next_region (snd (malloc_all ns s))))"
  using assms
proof (induction ns arbitrary: s)
  case Nil
  then show ?case by simp
next
  case (Cons n ns)
  let ?p = "fst (malloc n s)" and ?s1 = "snd (malloc n s)"
  let ?ps = "fst (malloc_all ns ?s1)" and ?s2 = "snd (malloc_all ns ?s1)"
  have ok: "?p \<noteq> NULL" and rest: "NULL \<notin> set ?ps"
    using Cons.prems(2) by (auto simp add: malloc_all_Cons)
  note m = malloc_success [OF ok]
  have al1: "next_region ?s1 AND 3 = 0" by (simp add: m region_after_aligned)
  note ih = Cons.IH [OF al1 rest]
  have p_al: "?p AND 3 = 0" using Cons.prems(1) by (simp add: m aligned_payload)
  have first: "region_after (region_for_ptr ?p) n = next_region ?s1" by (simp add: m)
  have step: "fst (malloc_all (n # ns) s) ! i AND 3 = 0
          \<and> region_after (region_for_ptr (fst (malloc_all (n # ns) s) ! i)) ((n # ns) ! i)
              = (if Suc i < length (n # ns) then region_for_ptr (fst (malloc_all (n # ns) s) ! Suc i)
                 else next_region (snd (malloc_all (n # ns) s)))"
    if "i < length (n # ns)" for i
  proof (cases i)
    case 0
    show ?thesis
    proof (cases "ns = []")
      case True
      then show ?thesis using 0 p_al first by (simp add: malloc_all_Cons)
    next
      case False
      then have "region_for_ptr (?ps ! 0) = next_region ?s1" using ih by blast
      then show ?thesis using 0 False p_al first by (simp add: malloc_all_Cons)
    qed
  next
    case (Suc j)
    then have "j < length ns" using that by simp
    then show ?thesis using ih Suc by (simp add: malloc_all_Cons)
  qed
  show ?case
    using step by (simp add: length_malloc_all) (simp add: malloc_all_Cons m)
qed

theorem sequential_layout_witness:
  "next_region roomy_heap AND 3 = 0
   \<and> NULL \<notin> set (fst (malloc_all three_sizes roomy_heap))
   \<and> fst (malloc_all three_sizes roomy_heap) = [0x1004, 0x1018, 0x103C]
   \<and> (0x1018 :: addr) AND 3 = 0
   \<and> region_after (region_for_ptr 0x1018) 32 = region_for_ptr 0x103C
   \<and> region_after (region_for_ptr 0x103C) 8 = next_region (snd (malloc_all three_sizes roomy_heap))"
proof -
  have h1: "next_region roomy_heap AND 3 = 0" by (simp add: roomy_heap_def)
  have ps: "fst (malloc_all three_sizes roomy_heap) = [0x1004, 0x1018, 0x103C]"
    by (rule malloc_all_roomy)
  have h2: "NULL \<notin> set (fst (malloc_all three_sizes roomy_heap))"
    by (simp add: ps NULL_def)
  have len: "length three_sizes = 3" by (simp add: three_sizes_def)
  note t = sequential_layout [OF h1 h2, unfolded ps len]
  have i1: "(1::nat) < 3" and i2: "(2::nat) < 3" by simp_all
  have a: "[0x1004, 0x1018, 0x103C :: addr] ! 1 AND 3 = 0
           \<and> region_after (region_for_ptr ([0x1004, 0x1018, 0x103C] ! 1)) (three_sizes ! 1)
             = (if Suc 1 < 3 then region_for_ptr ([0x1004, 0x1018, 0x103C] ! Suc 1)
                else next_region (snd (malloc_all three_sizes roomy_heap)))"
    using t i1 by blast
  have b: "region_after (region_for_ptr ([0x1004, 0x1018, 0x103C] ! 2)) (three_sizes ! 2)
             = (if Suc 2 < 3 then region_for_ptr ([0x1004, 0x1018, 0x103C] ! Suc 2)
                else next_region (snd (malloc_all three_sizes roomy_heap)))"
    using t i2 by blast
  show ?thesis
    using h1 h2 ps a b by (simp add: three_sizes_def)
qed

section \<open>Frees in reverse order\<close>

text \<open>
  Claim C10, as stated: for every sequence of successful allocations, freeing the
  returned pointers in reverse order rewinds the cursor to \<open>heap_start\<close>. On the roomy
  heap the sizes 16, 0xFFFFFFE8 and 8 are all served with non-null pointers, but the end
  of the second block wraps around to 0x1000, so the third block lies on top of the first
  and its header replaces the size of the first. The frees in reverse order then stop at
  0x1014: the last one finds the size 8 in the first header and no block ending at the
  cursor.
\<close>

theorem lifo_frees_counterexample:
  "fst (malloc_all wrapping_sizes roomy_heap) = [0x1004, 0x1018, 0x1004]
   \<and> NULL \<notin> set (fst (malloc_all wrapping_sizes roomy_heap))
   \<and> next_region roomy_heap = heap_start roomy_heap
   \<and> heap_start (free_all (rev (fst (malloc_all wrapping_sizes roomy_heap)))
         (snd (malloc_all wrapping_sizes roomy_heap))) = 0x1000
   \<and> next_region (free_all (rev (fst (malloc_all wrapping_sizes roomy_heap)))
         (snd (malloc_all wrapping_sizes roomy_heap))) = 0x1014"
  by (simp add: wrapping_sizes_def malloc_all_Cons eval_defs roomy_heap_def free_def
      region_for_ptr_def load32_def store32_def)

text \<open>
  Claim C10, amended: after any sequence of successful allocations that starts with the
  cursor at \<open>heap_start\<close> and whose blocks do not wrap around the address space, freeing
  the returned pointers in reverse order brings the cursor back to \<open>heap_start\<close>. Each
  free makes the block before it the tail again: once the pointers after the first \<open>k\<close>
  are freed, the cursor is where it was when the first \<open>k\<close> blocks had been allocated.
\<close>

theorem lifo_frees_rewind:
  assumes "NULL \<notin> set (fst (malloc_all ns s))" and "blocks_fit (next_region s) ns"
    and "next_region s = heap_start s"
  shows "(let ps = fst (malloc_all ns s); s' = snd (malloc_all ns s)
          in next_region (free_all (rev ps) s') = heap_start (free_all (rev ps) s')
             \<and> next_region (free_all (rev ps) s') = next_region s
             \<and> (\<forall>k\<le>length ns. next_region (free_all (rev (drop k ps)) s')
                                = next_region (snd (malloc_all (take k ns) s))))"
  using lifo_free_all [OF assms(1,2)] lifo_free_partial [OF assms(1,2)]
    malloc_all_heap_start [OF assms(1)] assms(3)
  by (simp add: Let_def)

theorem lifo_frees_rewind_witness:
  "NULL \<notin> set (fst (malloc_all three_sizes (reset_heap 0x8000 fresh_heap)))
   \<and> blocks_fit (next_region (reset_heap 0x8000 fresh_heap)) three_sizes
   \<and> next_region (reset_heap 0x8000 fresh_heap) = heap_start (reset_heap 0x8000 fresh_heap)
   \<and> (1 :: nat) \<le> length three_sizes
   \<and> next_region (free_all [0x803C, 0x8018, 0x8004]
        (snd (malloc_all three_sizes (reset_heap 0x8000 fresh_heap)))) = 0x8000
   \<and> heap_start (free_all [0x803C, 0x8018, 0x8004]
        (snd (malloc_all three_sizes (reset_heap 0x8000 fresh_heap)))) = 0x8000
   \<and> next_region (free_all [0x803C, 0x8018]
        (snd (malloc_all three_sizes (reset_heap 0x8000 fresh_heap)))) = 0x8014"
proof -
  let ?s = "reset_heap 0x8000 fresh_heap"
  have ps: "fst (malloc_all three_sizes ?s) = [0x8004, 0x8018, 0x803C]"
    by (rule malloc_all_reset)
  have h1: "NULL \<notin> set (fst (malloc_all three_sizes ?s))"
    by (simp add: ps NULL_def)
  have n: "next_region ?s = 0x8000" "heap_start ?s = 0x8000"
    by (simp_all add: reset_heap_def)
  have h2: "blocks_fit (next_region ?s) three_sizes"
    by (simp add: n three_sizes_def block_fits_def region_after_def REGION_HEADER_def)
  have h3: "next_region ?s = heap_start ?s" by (simp add: n)
  have k: "(1 :: nat) \<le> length three_sizes" by (simp add: three_sizes_def)
  note t = lifo_frees_rewind [OF h1 h2 h3, unfolded Let_def ps n]
  have a: "next_region (free_all (rev [0x8004, 0x8018, 0x803C]) (snd (malloc_all three_sizes ?s)))
           = heap_start (free_all (rev [0x8004, 0x8018, 0x803C]) (snd (malloc_all three_sizes ?s)))"
    and b: "next_region (free_all (rev [0x8004, 0x8018, 0x803C]) (snd (malloc_all three_sizes ?s)))
           = 0x8000"
    using t by blast+
  have c: "next_region (free_all (rev (drop 1 [0x8004, 0x8018, 0x803C])) (snd (malloc_all three_sizes ?s)))
           = next_region (snd (malloc_all (take 1 three_sizes) ?s))"
    using t k by blast
  have r: "rev [0x8004, 0x8018, 0x803C :: addr] = [0x803C, 0x8018, 0x8004]"
    "rev (drop 1 [0x8004, 0x8018, 0x803C :: addr]) = [0x803C, 0x8018]"
    by simp_all
  show ?thesis
    using h1 h2 h3 k a b c unfolding r malloc_all_reset(2) by metis
qed

end
